theory Spec2Isabelle
  imports Main "HOL-Library.Log_Nat" "HOL-Library.AList"
begin

section \<open>JavaScript numbers\<close>

text \<open>
  A JavaScript number is an IEEE 754 binary64 value. It is modelled as \<open>NaN\<close>, one of the
  two infinities, or a finite value given by the rational it denotes. Every arithmetic
  operation computes the exact rational result and rounds it to the nearest binary64 value,
  ties to the even significand (\<open>rnd\<close>), as the hardware does. The two zeros are
  identified: no operation modelled here tells them apart (no division by a computed zero,
  no \<open>Object.is\<close>).
\<close>

datatype jsnum = NaN | PInf | NInf | Fin rat

definition pow2 :: "int \<Rightarrow> rat" where
  "pow2 k = (if 0 \<le> k then 2 ^ nat k else 1 / 2 ^ nat (- k))"

definition pow10 :: "int \<Rightarrow> rat" where
  "pow10 k = (if 0 \<le> k then 10 ^ nat k else 1 / 10 ^ nat (- k))"

text \<open>\<open>ilog2 q\<close> is the binary exponent of a positive rational: \<open>2 ^ ilog2 q \<le> q < 2 ^ (ilog2 q + 1)\<close>.\<close>

definition ilog2 :: "rat \<Rightarrow> int" where
  "ilog2 q = (case quotient_of q of (a, b) \<Rightarrow>
     let d = bitlen a - bitlen b in if pow2 d \<le> q then d else d - 1)"

definition round_half_even :: "rat \<Rightarrow> int" where
  "round_half_even x =
     (let f = \<lfloor>x\<rfloor>; r = x - of_int f
      in if r < 1 / 2 then f else if 1 / 2 < r then f + 1 else if even f then f else f + 1)"

text \<open>
  Rounding to binary64. The significand has 53 bits: with \<open>e\<close> the binary exponent of
  \<open>|q|\<close>, the result is the multiple of \<open>2 ^ (e - 52)\<close> nearest to \<open>|q|\<close>. Below the
  exponent \<open>-1022\<close> the spacing stays \<open>2 ^ -1074\<close> (subnormal numbers, and \<open>0\<close>). The
  largest exponent is \<open>1023\<close>: a value beyond it, or one whose significand rounds up to
  \<open>2 ^ 53\<close> at that exponent, is an infinity.
\<close>

definition rnd :: "rat \<Rightarrow> jsnum" where
  "rnd q = (if q = 0 then Fin 0 else
     let a = \<bar>q\<bar>; e = max (ilog2 a) (- 1022); u = pow2 (e - 52);
         m = round_half_even (a / u)
     in if 1023 < e \<or> (e = 1023 \<and> 2 ^ 53 \<le> m) then (if 0 < q then PInf else NInf)
        else Fin (if 0 < q then of_int m * u else - (of_int m * u)))"

fun isFinite :: "jsnum \<Rightarrow> bool" where
  "isFinite (Fin q) = True"
| "isFinite _ = False"

fun js_neg :: "jsnum \<Rightarrow> jsnum" where
  "js_neg NaN = NaN"
| "js_neg PInf = NInf"
| "js_neg NInf = PInf"
| "js_neg (Fin q) = Fin (- q)"

text \<open>The comparisons \<open>x > y\<close> and \<open>x <= y\<close>: false as soon as an operand is \<open>NaN\<close>.\<close>

fun js_lt :: "jsnum \<Rightarrow> jsnum \<Rightarrow> bool" where
  "js_lt NaN _ = False"
| "js_lt _ NaN = False"
| "js_lt (Fin a) (Fin b) = (a < b)"
| "js_lt NInf NInf = False"
| "js_lt NInf _ = True"
| "js_lt PInf _ = False"
| "js_lt (Fin a) PInf = True"
| "js_lt (Fin a) NInf = False"

fun js_eq :: "jsnum \<Rightarrow> jsnum \<Rightarrow> bool" where
  "js_eq NaN _ = False"
| "js_eq _ NaN = False"
| "js_eq x y = (x = y)"

definition js_gt :: "jsnum \<Rightarrow> jsnum \<Rightarrow> bool" where
  "js_gt x y = js_lt y x"

definition js_le :: "jsnum \<Rightarrow> jsnum \<Rightarrow> bool" where
  "js_le x y = (js_lt x y \<or> js_eq x y)"

fun fl_add :: "jsnum \<Rightarrow> jsnum \<Rightarrow> jsnum" where
  "fl_add NaN _ = NaN"
| "fl_add _ NaN = NaN"
| "fl_add (Fin a) (Fin b) = rnd (a + b)"
| "fl_add PInf NInf = NaN"
| "fl_add NInf PInf = NaN"
| "fl_add PInf _ = PInf"
| "fl_add NInf _ = NInf"
| "fl_add (Fin a) y = y"

text \<open>
  Multiplication and division. The sign of a zero is not kept, so a division by zero takes
  the zero as positive; the code modelled below only ever divides by a positive count.
\<close>

fun fl_mul :: "jsnum \<Rightarrow> jsnum \<Rightarrow> jsnum" where
  "fl_mul NaN _ = NaN"
| "fl_mul _ NaN = NaN"
| "fl_mul (Fin a) (Fin b) = rnd (a * b)"
| "fl_mul (Fin a) y = (if a = 0 then NaN else if 0 < a then y else js_neg y)"
| "fl_mul x (Fin b) = (if b = 0 then NaN else if 0 < b then x else js_neg x)"
| "fl_mul x y = (if x = y then PInf else NInf)"

fun fl_div :: "jsnum \<Rightarrow> jsnum \<Rightarrow> jsnum" where
  "fl_div NaN _ = NaN"
| "fl_div _ NaN = NaN"
| "fl_div (Fin a) (Fin b) =
     (if b = 0 then (if a = 0 then NaN else if 0 < a then PInf else NInf) else rnd (a / b))"
| "fl_div (Fin a) y = Fin 0"
| "fl_div x (Fin b) = (if 0 \<le> b then x else js_neg x)"
| "fl_div x y = NaN"

text \<open>\<open>Math.ceil\<close>: the least integer not below the argument, itself a binary64 value.\<close>

fun js_ceil :: "jsnum \<Rightarrow> jsnum" where
  "js_ceil (Fin q) = Fin (of_int \<lceil>q\<rceil>)"
| "js_ceil x = x"

section \<open>Strings and \<open>parseFloat\<close>\<close>

text \<open>
  A JavaScript string is a sequence of UTF-16 code units. It is modelled as a \<open>string\<close>
  whose characters are the code units below 256, which covers every character that
  \<open>parseFloat\<close> gives a meaning to except the white space beyond Latin-1.
\<close>

definition isWhiteSpace :: "char \<Rightarrow> bool" where
  "isWhiteSpace c = ((of_char c :: nat) \<in> {9, 10, 11, 12, 13, 32, 160})"

definition isDigit :: "char \<Rightarrow> bool" where
  "isDigit c = (48 \<le> (of_char c :: nat) \<and> (of_char c :: nat) \<le> 57)"

definition digitsVal :: "string \<Rightarrow> nat" where
  "digitsVal ds = foldl (\<lambda>n c. 10 * n + (of_char c - 48)) 0 ds"

text \<open>
  The value of the exponent part at the head of a string, when there is one: \<open>e\<close> or
  \<open>E\<close>, an optional sign and at least one digit. Otherwise the literal ends before it and
  the exponent is \<open>0\<close>.
\<close>

definition exponentPart :: "string \<Rightarrow> int" where
  "exponentPart s =
     (case s of
        [] \<Rightarrow> 0
      | c # t \<Rightarrow>
          if c = CHR ''e'' \<or> c = CHR ''E'' then
            (case t of
               [] \<Rightarrow> 0
             | d # t' \<Rightarrow>
                 if d = CHR ''+'' then int (digitsVal (takeWhile isDigit t'))
                 else if d = CHR ''-'' then - int (digitsVal (takeWhile isDigit t'))
                 else int (digitsVal (takeWhile isDigit t)))
          else 0)"

text \<open>
  The number denoted by the longest prefix that is an unsigned decimal literal of the
  grammar of \<open>parseFloat\<close>: \<open>Infinity\<close>, digits with an optional fraction, or a fraction
  alone, each with an optional exponent. \<open>NaN\<close> when no prefix is one.
\<close>

definition strUnsignedDecimal :: "string \<Rightarrow> jsnum" where
  "strUnsignedDecimal s =
     (if take 8 s = ''Infinity'' then PInf
      else
        let ip = takeWhile isDigit s;
            r1 = dropWhile isDigit s;
            hasDot = (case r1 of [] \<Rightarrow> False | c # _ \<Rightarrow> c = CHR ''.'');
            fp = (if hasDot then takeWhile isDigit (tl r1) else []);
            r2 = (if hasDot then dropWhile isDigit (tl r1) else r1)
        in if ip = [] \<and> fp = [] then NaN
           else rnd (of_nat (digitsVal (ip @ fp)) * pow10 (exponentPart r2 - int (length fp))))"

definition parseFloatStr :: "string \<Rightarrow> jsnum" where
  "parseFloatStr s =
     (case dropWhile isWhiteSpace s of
        [] \<Rightarrow> NaN
      | c # t \<Rightarrow>
          if c = CHR ''+'' then strUnsignedDecimal t
          else if c = CHR ''-'' then js_neg (strUnsignedDecimal t)
          else strUnsignedDecimal (c # t))"

text \<open>
  The values the field \<open>dias\<close> takes in the data, as the comment in
  \<open>getInvalidProcessesDetails\<close> lists them: a number, a string, \<open>null\<close>, or \<open>undefined\<close>
  when the field is missing.
\<close>

datatype jsval = JNum jsnum | JStr string | JNull | JUndefined

text \<open>
  \<open>parseFloat\<close> converts its argument to a string and reads the longest numeric prefix.
  \<open>"null"\<close> and \<open>"undefined"\<close> have none. The string of a number reads back as the same
  number (the string of \<open>NaN\<close> has no numeric prefix, the one of an infinity is
  \<open>Infinity\<close> with its sign), so a number is returned as it is.
\<close>

fun parseFloat :: "jsval \<Rightarrow> jsnum" where
  "parseFloat (JNum n) = n"
| "parseFloat (JStr s) = parseFloatStr s"
| "parseFloat JNull = NaN"
| "parseFloat JUndefined = NaN"

section \<open>The records and the aggregations of \<open>src/app/actions.ts\<close>\<close>

record Process =
  processo :: string
  unidade :: string
  tipo_tabela :: string
  dias :: jsval
  posicao :: jsval

record TabelaSummary =
  s_tipo_tabela :: string
  s_quantidadeProcessos :: nat
  mediaDias :: jsnum

record TabelaDetails =
  d_tipo_tabela :: string
  d_quantidadeProcessos :: nat
  d_dias :: nat
  percentualIntervaloDias :: jsnum

text \<open>
  Every operation starts with \<open>readProcessesData()\<close>, which returns the list of records of
  the most recent snapshot file, or the empty list when it cannot be read. The operations
  are modelled as functions of that list, \<open>allProcesses\<close>. The fields other than
  \<open>dias\<close> are as the interface \<open>Process\<close> declares them; on such records no step of an
  operation throws, so the \<open>catch\<close> blocks that return \<open>[]\<close> or \<open>null\<close> are not entered.
\<close>

subsection \<open>\<open>getTabelasSummaryByUnidade\<close>\<close>

text \<open>The callback of the filter that builds \<open>validProcesses\<close>.\<close>

definition validDias :: "Process \<Rightarrow> bool" where
  "validDias p =
     (let diasAsNumber = parseFloat (dias p)
      in isFinite diasAsNumber \<and> js_gt diasAsNumber (Fin 0))"

text \<open>
  \<open>summaryMap\<close> is a \<open>Map\<close>, which iterates in the order in which its keys were first
  set: an association list where a new key goes to the end (\<open>AList.update\<close>).
  \<open>summaryStep\<close> is the body of the \<open>forEach\<close> over \<open>validProcesses\<close>.
\<close>

type_synonym summaryMap = "(string \<times> (jsnum \<times> nat)) list"

definition summaryStep :: "summaryMap \<Rightarrow> Process \<Rightarrow> summaryMap" where
  "summaryStep m p =
     (let m1 = (if map_of m (tipo_tabela p) = None
                then AList.update (tipo_tabela p) (Fin 0, 0) m else m)
      in case map_of m1 (tipo_tabela p) of
           None \<Rightarrow> m1
         | Some (totalDias, count) \<Rightarrow>
             AList.update (tipo_tabela p)
               (fl_add totalDias (parseFloat (dias p)), Suc count) m1)"

definition summaryEntry :: "string \<times> (jsnum \<times> nat) \<Rightarrow> TabelaSummary" where
  "summaryEntry kv =
     (case kv of (key, (totalDias, count)) \<Rightarrow>
        let averageRounded = js_ceil (fl_div totalDias (Fin (of_nat count)))
        in \<lparr>s_tipo_tabela = key,
            s_quantidadeProcessos = count,
            mediaDias = (if 0 < count then averageRounded else Fin 0)\<rparr>)"

definition getTabelasSummaryByUnidade :: "Process list \<Rightarrow> string \<Rightarrow> TabelaSummary list" where
  "getTabelasSummaryByUnidade allProcesses u =
     (let processesByUnidade = filter (\<lambda>p. unidade p = u) allProcesses
      in if length processesByUnidade = 0 then []
         else
           let validProcesses = filter validDias processesByUnidade
           in if length validProcesses = 0 then []
              else map summaryEntry (foldl summaryStep [] validProcesses))"

subsection \<open>\<open>getProcessByNumber\<close>\<close>

text \<open>\<open>Array.prototype.find\<close> is \<open>List.find\<close>: the first element that satisfies the test.\<close>

definition getProcessByNumber :: "Process list \<Rightarrow> string \<Rightarrow> Process option" where
  "getProcessByNumber processes numeroDoProcesso =
     find (\<lambda>p. processo p = numeroDoProcesso) processes"

text \<open>
  The search of the \<open>GET\<close> handler of \<open>src/unnamed/part_001\<close>, once the cache is
  loaded and the parameter decoded and trimmed: the same \<open>find\<close>, answered with status 200
  and the record, or with status 404. The items of the cache are taken to have the shape
  of a record.
\<close>

datatype http_reply = Ok200 Process | NotFound404

definition GET_search :: "Process list \<Rightarrow> string \<Rightarrow> http_reply" where
  "GET_search cacheArray numero =
     (case find (\<lambda>item. processo item = numero) cacheArray of
        None \<Rightarrow> NotFound404
      | Some processData \<Rightarrow> Ok200 processData)"

subsection \<open>\<open>getDetailsByUnidadeAndTabela\<close>\<close>

definition getProcessosByUnidadeAndTabela ::
  "Process list \<Rightarrow> string \<Rightarrow> string \<Rightarrow> Process list option" where
  "getProcessosByUnidadeAndTabela allProcesses tipoTabela u =
     (let filteredProcesses =
            filter (\<lambda>p. unidade p = u \<and> tipo_tabela p = tipoTabela) allProcesses
      in if 0 < length filteredProcesses then Some filteredProcesses else None)"

text \<open>
  \<open>x.toFixed(2)\<close>. A finite \<open>x\<close> below \<open>10 ^ 21\<close> in magnitude is written with two
  decimals: the integer \<open>n\<close> with \<open>n / 100\<close> nearest to \<open>|x|\<close>, the larger one on a tie,
  split before its last two digits, after the sign of \<open>x\<close>. Any other \<open>x\<close> is written as
  the string of the number, which stays symbolic here (\<open>ToStringOf\<close>), since all the code
  does with the result is to read it back with \<open>parseFloat\<close>.
\<close>

fun showNat :: "nat \<Rightarrow> string" where
  "showNat n =
     (if n < 10 then [char_of (48 + n)]
      else showNat (n div 10) @ [char_of (48 + n mod 10)])"

declare showNat.simps [simp del]

datatype fixed = Digits string | ToStringOf jsnum

definition toFixed2 :: "jsnum \<Rightarrow> fixed" where
  "toFixed2 x =
     (case x of
        Fin q \<Rightarrow>
          if 10 ^ 21 \<le> \<bar>q\<bar> then ToStringOf x
          else
            let n = nat \<lfloor>\<bar>q\<bar> * 100 + 1 / 2\<rfloor>;
                m = showNat n;
                m' = replicate (3 - length m) (CHR ''0'') @ m;
                k = length m'
            in Digits ((if q < 0 then ''-'' else []) @ take (k - 2) m' @ ''.'' @ drop (k - 2) m')
      | _ \<Rightarrow> ToStringOf x)"

fun parseFloatFixed :: "fixed \<Rightarrow> jsnum" where
  "parseFloatFixed (Digits s) = parseFloatStr s"
| "parseFloatFixed (ToStringOf n) = n"

text \<open>The test of the \<open>forEach\<close> that counts \<open>intervaloProcessos\<close>; \<open>diasMax\<close> is the parameter \<open>dias\<close>.\<close>

definition inInterval :: "jsnum \<Rightarrow> Process \<Rightarrow> bool" where
  "inInterval diasMax p =
     (let diasAsNumber = parseFloat (dias p)
      in isFinite diasAsNumber \<and> js_gt diasAsNumber (Fin 0) \<and> js_le diasAsNumber diasMax)"

definition getDetailsByUnidadeAndTabela ::
  "Process list \<Rightarrow> string \<Rightarrow> string \<Rightarrow> jsnum \<Rightarrow> TabelaDetails option" where
  "getDetailsByUnidadeAndTabela allProcesses tipoTabela u diasMax =
     (case getProcessosByUnidadeAndTabela allProcesses tipoTabela u of
        None \<Rightarrow> None
      | Some processes \<Rightarrow>
          if length processes = 0 then None
          else
            let quantidadeProcessos = length processes;
                intervaloProcessos =
                  foldl (\<lambda>n p. if inInterval diasMax p then Suc n else n) 0 processes;
                percent =
                  parseFloatFixed (toFixed2
                    (fl_mul (fl_div (Fin (of_nat intervaloProcessos))
                                    (Fin (of_nat quantidadeProcessos)))
                            (Fin 100)))
            in Some \<lparr>d_tipo_tabela = tipoTabela,
                     d_quantidadeProcessos = quantidadeProcessos,
                     d_dias = intervaloProcessos,
                     percentualIntervaloDias = percent\<rparr>)"

subsection \<open>\<open>getInvalidProcessesDetails\<close>\<close>

record InvalidDetails =
  i_tipo_tabela :: string
  quantidadeProcessosInvalidos :: nat
  totalGeralProcessos :: nat

definition invalidDias :: "Process \<Rightarrow> bool" where
  "invalidDias p =
     (let diasValue = dias p;
          isNullOrUndefined = (diasValue = JNull \<or> diasValue = JUndefined);
          diasAsNumber = parseFloat diasValue;
          isNotValidNumberOrNegative = (\<not> isFinite diasAsNumber \<or> js_le diasAsNumber (Fin 0))
      in isNullOrUndefined \<or> isNotValidNumberOrNegative)"

definition getInvalidProcessesDetails ::
  "Process list \<Rightarrow> string \<Rightarrow> string \<Rightarrow> InvalidDetails option" where
  "getInvalidProcessesDetails allProcesses tipoTabela u =
     (let processes = filter (\<lambda>p. unidade p = u \<and> tipo_tabela p = tipoTabela) allProcesses
      in if length processes = 0 then None
         else
           let totalGeralProcessos = length processes;
               quantidadeProcessosInvalidos =
                 foldl (\<lambda>n p. if invalidDias p then Suc n else n) 0 processes
           in Some \<lparr>i_tipo_tabela = tipoTabela,
                    quantidadeProcessosInvalidos = quantidadeProcessosInvalidos,
                    totalGeralProcessos = totalGeralProcessos\<rparr>)"

subsection \<open>\<open>getOverallAverageDaysByUnidade\<close>\<close>

text \<open>
  The accumulator of the \<open>reduce\<close> starts as the number \<open>0\<close> and is added to \<open>process.dias\<close>
  with \<open>+\<close>, with no conversion before. \<open>+\<close> concatenates as soon as one operand is a
  string, and adds numbers otherwise, \<open>null\<close> counting as \<open>0\<close> and \<open>undefined\<close> as
  \<open>NaN\<close>. Writing a number as a string (\<open>numberToString\<close>) and reading a whole string as
  a number (\<open>stringToNumber\<close>, for the division) belong to the runtime and are parameters.
\<close>

datatype jsacc = AccNum jsnum | AccStr string

fun jsPlus :: "(jsnum \<Rightarrow> string) \<Rightarrow> jsacc \<Rightarrow> jsval \<Rightarrow> jsacc" where
  "jsPlus numberToString (AccNum a) (JNum b) = AccNum (fl_add a b)"
| "jsPlus numberToString (AccNum a) JNull = AccNum (fl_add a (Fin 0))"
| "jsPlus numberToString (AccNum a) JUndefined = AccNum (fl_add a NaN)"
| "jsPlus numberToString (AccNum a) (JStr s) = AccStr (numberToString a @ s)"
| "jsPlus numberToString (AccStr t) (JNum b) = AccStr (t @ numberToString b)"
| "jsPlus numberToString (AccStr t) JNull = AccStr (t @ ''null'')"
| "jsPlus numberToString (AccStr t) JUndefined = AccStr (t @ ''undefined'')"
| "jsPlus numberToString (AccStr t) (JStr s) = AccStr (t @ s)"

fun toNumber :: "(string \<Rightarrow> jsnum) \<Rightarrow> jsacc \<Rightarrow> jsnum" where
  "toNumber stringToNumber (AccNum a) = a"
| "toNumber stringToNumber (AccStr t) = stringToNumber t"

definition getOverallAverageDaysByUnidade ::
  "(jsnum \<Rightarrow> string) \<Rightarrow> (string \<Rightarrow> jsnum) \<Rightarrow> Process list \<Rightarrow> string \<Rightarrow> jsnum" where
  "getOverallAverageDaysByUnidade numberToString stringToNumber allProcesses u =
     (let processesByUnidade = filter (\<lambda>p. unidade p = u) allProcesses
      in if length processesByUnidade = 0 then Fin 0
         else
           let totalDays =
                 foldl (\<lambda>sum p. jsPlus numberToString sum (dias p)) (AccNum (Fin 0))
                   processesByUnidade
           in parseFloatFixed (toFixed2
                (fl_div (toNumber stringToNumber totalDays)
                        (Fin (of_nat (length processesByUnidade))))))"

section \<open>The loader of the record store\<close>

text \<open>
  \<open>JSON.parse\<close> belongs to the runtime: it is a parameter \<open>parse\<close> of the loaders, which
  returns \<open>None\<close> where \<open>JSON.parse\<close> throws a \<open>SyntaxError\<close>.
\<close>

datatype json =
    JsonNull
  | JsonBool bool
  | JsonNumber jsnum
  | JsonString string
  | JsonArray "json list"
  | JsonObject "(string \<times> json) list"

text \<open>
  The part of the file system the loaders touch. \<open>remote\<close> and \<open>local\<close> are what
  \<open>fs.readFile\<close> gives for the primary and for the backup path: the text of the file, or
  the error it throws. \<open>local_dir\<close> tells whether the directory of the backup file
  exists; \<open>mkdir_error\<close> is the error of creating it when it does not, and
  \<open>write_error\<close> the error of writing the backup file in an existing directory
  (\<open>None\<close>: the call succeeds). A write that fails leaves the file as it was.
\<close>

type_synonym fs_error = string

record fs =
  remote :: "fs_error + string"
  local :: "fs_error + string"
  local_dir :: bool
  mkdir_error :: "fs_error option"
  write_error :: "fs_error option"

datatype location = Remote | Local

text \<open>
  What a loader throws: the error of the last \<open>readFile\<close> (\<open>ReadFailed\<close>); the error with
  the parse message and \<open>statusCode\<close> 500 (\<open>CorruptData\<close>); the error with \<open>statusCode\<close> 503
  for content that is not an array, which names the path read last (\<open>InvalidShape\<close>); and
  the \<open>Error\<close> of \<open>route.ts\<close> that says that the primary cache and the backup both failed
  (\<open>Unavailable\<close>).
\<close>

datatype load_error =
    ReadFailed fs_error
  | CorruptData
  | InvalidShape location
  | Unavailable

subsection \<open>The loader with \<open>updateLocalCache\<close> (first file of \<open>src/unnamed/part_001\<close>)\<close>

definition mkdir_recursive :: "fs \<Rightarrow> fs_error + fs" where
  "mkdir_recursive s =
     (if local_dir s then Inr s
      else case mkdir_error s of
             Some e \<Rightarrow> Inl e
           | None \<Rightarrow> Inr (s\<lparr>local_dir := True\<rparr>))"

definition writeFile_local :: "string \<Rightarrow> fs \<Rightarrow> fs_error + fs" where
  "writeFile_local content s =
     (if \<not> local_dir s then Inl ''ENOENT''
      else case write_error s of
             Some e \<Rightarrow> Inl e
           | None \<Rightarrow> Inr (s\<lparr>local := Inr content\<rparr>))"

text \<open>\<open>updateLocalCache\<close> catches the error of either call and only logs it.\<close>

definition updateLocalCache :: "string \<Rightarrow> fs \<Rightarrow> fs" where
  "updateLocalCache content s =
     (case mkdir_recursive s of
        Inl e \<Rightarrow> s
      | Inr s1 \<Rightarrow> (case writeFile_local content s1 of Inl e \<Rightarrow> s1 | Inr s2 \<Rightarrow> s2))"

text \<open>The last \<open>try\<close> of \<open>getProcessCache\<close>: parse, check for an array, rethrow with a status.\<close>

definition parseCache ::
  "(string \<Rightarrow> json option) \<Rightarrow> location \<Rightarrow> string \<Rightarrow> load_error + json list" where
  "parseCache parse lastAttemptedPath fileContent =
     (case parse fileContent of
        None \<Rightarrow> Inl CorruptData
      | Some parsedData \<Rightarrow>
          (case parsedData of
             JsonArray items \<Rightarrow> Inr items
           | _ \<Rightarrow> Inl (InvalidShape lastAttemptedPath)))"

definition getProcessCache ::
  "(string \<Rightarrow> json option) \<Rightarrow> fs \<Rightarrow> (load_error + json list) \<times> fs" where
  "getProcessCache parse s =
     (case remote s of
        Inr fileContent \<Rightarrow>
          (let s1 = updateLocalCache fileContent s
           in (parseCache parse Remote fileContent, s1))
      | Inl remoteError \<Rightarrow>
          (case local s of
             Inl localError \<Rightarrow> (Inl (ReadFailed localError), s)
           | Inr fileContent \<Rightarrow> (parseCache parse Local fileContent, s)))"

subsection \<open>The loader of \<open>src/app/api/processo/route.ts\<close>\<close>

text \<open>
  One \<open>try\<close> holds the read of the primary, the write of the backup (with no \<open>mkdir\<close>) and
  the parse; its \<open>catch\<close> reads and parses the backup, and any failure there throws
  \<open>Unavailable\<close>. The result is whatever JSON value the text denotes.
\<close>

definition readBackup :: "(string \<Rightarrow> json option) \<Rightarrow> fs \<Rightarrow> load_error + json" where
  "readBackup parse s =
     (case local s of
        Inl backupError \<Rightarrow> Inl Unavailable
      | Inr backupData \<Rightarrow>
          (case parse backupData of None \<Rightarrow> Inl Unavailable | Some v \<Rightarrow> Inr v))"

definition getProcessCache_route ::
  "(string \<Rightarrow> json option) \<Rightarrow> fs \<Rightarrow> (load_error + json) \<times> fs" where
  "getProcessCache_route parse s =
     (case remote s of
        Inl error \<Rightarrow> (readBackup parse s, s)
      | Inr data \<Rightarrow>
          (case writeFile_local data s of
             Inl error \<Rightarrow> (readBackup parse s, s)
           | Inr s1 \<Rightarrow>
               (case parse data of
                  None \<Rightarrow> (readBackup parse s1, s1)
                | Some v \<Rightarrow> (Inr v, s1))))"

section \<open>Data of the examples\<close>

definition mkProcess :: "string \<Rightarrow> string \<Rightarrow> string \<Rightarrow> jsval \<Rightarrow> Process" where
  "mkProcess n u t d =
     \<lparr>processo = n, unidade = u, tipo_tabela = t, dias = d, posicao = JNum (Fin 1)\<rparr>"

text \<open>A stand-in for \<open>JSON.parse\<close> on the few texts of the examples; \<open>{bad\<close> is not JSON.\<close>

definition parse_demo :: "string \<Rightarrow> json option" where
  "parse_demo t =
     (if t = ''[]'' then Some (JsonArray [])
      else if t = ''[null]'' then Some (JsonArray [JsonNull])
      else if t = ''{}'' then Some (JsonObject [])
      else None)"

text \<open>The records of a category and unit pair, as every operation on a pair selects them.\<close>

definition matching :: "Process list \<Rightarrow> string \<Rightarrow> string \<Rightarrow> Process list" where
  "matching allProcesses tipoTabela u =
     filter (\<lambda>p. unidade p = u \<and> tipo_tabela p = tipoTabela) allProcesses"

definition dup_first :: Process where
  "dup_first = mkProcess ''0001.000001/2024-01'' ''U'' ''T'' (JNum (Fin 1))"

definition dup_second :: Process where
  "dup_second = mkProcess ''0001.000001/2024-01'' ''U'' ''T'' (JNum (Fin 2))"

definition four_records :: "Process list" where
  "four_records =
     [mkProcess ''1'' ''U'' ''T'' JNull,
      mkProcess ''2'' ''U'' ''T'' (JStr ''abc''),
      mkProcess ''3'' ''U'' ''T'' (JNum (Fin (- 1))),
      mkProcess ''4'' ''U'' ''T'' (JNum (Fin 5))]"

text \<open>
  The records of a unit that pass the validity test of the summary, by category, and the
  entry of a category in \<open>summaryMap\<close>, which is zero before the first record.
\<close>

definition validGroup :: "Process list \<Rightarrow> string \<Rightarrow> string \<Rightarrow> Process list" where
  "validGroup allProcesses u k =
     filter (\<lambda>p. unidade p = u \<and> tipo_tabela p = k \<and> validDias p) allProcesses"

definition acc0 :: "summaryMap \<Rightarrow> string \<Rightarrow> jsnum \<times> nat" where
  "acc0 m k = (case map_of m k of None \<Rightarrow> (Fin 0, 0) | Some v \<Rightarrow> v)"

definition one_two :: "Process list" where
  "one_two =
     [mkProcess ''1'' ''U'' ''T'' (JNum (Fin 1)),
      mkProcess ''2'' ''U'' ''T'' (JNum (Fin 2))]"


text \<open>The whole number of days of a record whose coerced \<open>dias\<close> is one.\<close>

definition wholeDias :: "Process \<Rightarrow> int" where
  "wholeDias p = (case parseFloat (dias p) of Fin q \<Rightarrow> \<lfloor>q\<rfloor> | _ \<Rightarrow> 0)"

text \<open>
  Record lists on which binary64 rounding shows: two whole numbers of days whose sum is
  not a binary64 number, two days whose mean is just above 1, and 160 records of which 23
  are within five days.
\<close>

definition big_days :: "Process list" where
  "big_days =
     [mkProcess ''1'' ''U'' ''T'' (JNum (Fin 9007199254740992)),
      mkProcess ''2'' ''U'' ''T'' (JNum (Fin 1))]"

definition near_one :: "Process list" where
  "near_one =
     [mkProcess ''1'' ''U'' ''T'' (JNum (Fin (4503599627370497 / 4503599627370496))),
      mkProcess ''2'' ''U'' ''T'' (JNum (Fin 1))]"


definition dup_other :: Process where
  "dup_other = mkProcess ''0002.000002/2024-02'' ''U'' ''T'' (JNum (Fin 3))"

text \<open>States of the file system and record lists of the examples.\<close>

definition fs_corrupt_primary :: fs where
  "fs_corrupt_primary =
     \<lparr>remote = Inr ''{bad'', local = Inr ''[]'', local_dir = True,
      mkdir_error = None, write_error = None\<rparr>"

definition fs_corrupt_primary_readonly :: fs where
  "fs_corrupt_primary_readonly =
     \<lparr>remote = Inr ''{bad'', local = Inr ''[]'', local_dir = True,
      mkdir_error = None, write_error = Some ''EACCES''\<rparr>"

definition fs_backup_readonly :: fs where
  "fs_backup_readonly =
     \<lparr>remote = Inr ''[null]'', local = Inr ''[]'', local_dir = True,
      mkdir_error = None, write_error = Some ''EACCES''\<rparr>"

definition fs_no_backup_dir :: fs where
  "fs_no_backup_dir =
     \<lparr>remote = Inr ''[null]'', local = Inl ''ENOENT'', local_dir = False,
      mkdir_error = None, write_error = None\<rparr>"

definition fs_backup_only :: "string \<Rightarrow> fs" where
  "fs_backup_only content =
     \<lparr>remote = Inl ''ENOENT'', local = Inr content, local_dir = True,
      mkdir_error = None, write_error = None\<rparr>"

definition missing_dias :: "Process list" where
  "missing_dias =
     [mkProcess ''1'' ''U'' ''T'' JUndefined,
      mkProcess ''2'' ''U'' ''T'' (JNum (Fin 10))]"

definition zero_dias :: "Process list" where
  "zero_dias =
     [mkProcess ''1'' ''U'' ''T'' (JNum (Fin 0)),
      mkProcess ''2'' ''U'' ''T'' (JNum (Fin 10))]"

definition string_dias :: "Process list" where
  "string_dias =
     [mkProcess ''1'' ''U'' ''T'' (JStr ''5''),
      mkProcess ''2'' ''U'' ''T'' (JStr ''7'')]"

section \<open>Counting with a \<open>forEach\<close>\<close>

lemma foldl_count:
  "foldl (\<lambda>n p. if P p then Suc n else n) k xs = k + length (filter P xs)"
  by (induction xs arbitrary: k) simp_all


lemma getDetails_eq:
  "getDetailsByUnidadeAndTabela allProcesses tipoTabela u diasMax =
     (if matching allProcesses tipoTabela u = [] then None
      else Some \<lparr>d_tipo_tabela = tipoTabela,
                 d_quantidadeProcessos = length (matching allProcesses tipoTabela u),
                 d_dias = length (filter (inInterval diasMax) (matching allProcesses tipoTabela u)),
                 percentualIntervaloDias =
                   parseFloatFixed (toFixed2
                     (fl_mul (fl_div (Fin (of_nat (length (filter (inInterval diasMax)
                                        (matching allProcesses tipoTabela u)))))
                                     (Fin (of_nat (length (matching allProcesses tipoTabela u)))))
                             (Fin 100)))\<rparr>)"
  by (simp add: getDetailsByUnidadeAndTabela_def getProcessosByUnidadeAndTabela_def
      matching_def Let_def foldl_count)

lemma getInvalid_eq:
  "getInvalidProcessesDetails allProcesses tipoTabela u =
     (if matching allProcesses tipoTabela u = [] then None
      else Some \<lparr>i_tipo_tabela = tipoTabela,
                 quantidadeProcessosInvalidos =
                   length (filter invalidDias (matching allProcesses tipoTabela u)),
                 totalGeralProcessos = length (matching allProcesses tipoTabela u)\<rparr>)"
  by (simp add: getInvalidProcessesDetails_def matching_def Let_def foldl_count)

section \<open>The validity tests\<close>

lemma js_gt_le_zero: "\<not> (js_gt x (Fin 0) \<and> js_le x (Fin 0))"
  by (cases x) (auto simp: js_gt_def js_le_def)

lemma inInterval_zero: "\<not> inInterval (Fin 0) p"
  using js_gt_le_zero [of "parseFloat (dias p)"] by (simp add: inInterval_def Let_def)


lemma find_first:
  assumes "r \<in> set recs"
  shows "\<exists>i<length recs. find (\<lambda>p. f p = f r) recs = Some (recs ! i) \<and> f (recs ! i) = f r
      \<and> (\<forall>j<i. f (recs ! j) \<noteq> f r)"
proof -
  from assms have "find (\<lambda>p. f p = f r) recs \<noteq> None"
    by (auto simp: find_None_iff)
  then obtain x where "find (\<lambda>p. f p = f r) recs = Some x" by blast
  then show ?thesis
    unfolding find_Some_iff by auto
qed

section \<open>The summary map\<close>

lemma summaryStep_map_of:
  "map_of (summaryStep m p) =
     (map_of m)(tipo_tabela p \<mapsto>
        (fl_add (fst (acc0 m (tipo_tabela p))) (parseFloat (dias p)),
         Suc (snd (acc0 m (tipo_tabela p)))))"
  by (cases "map_of m (tipo_tabela p)")
     (auto simp: summaryStep_def acc0_def update_conv' Let_def)

lemma summaryStep_distinct:
  "distinct (map fst m) \<Longrightarrow> distinct (map fst (summaryStep m p))"
  by (cases "map_of m (tipo_tabela p)")
     (auto simp: summaryStep_def Let_def distinct_update split: option.splits)

lemma foldl_summaryStep_distinct:
  "distinct (map fst m) \<Longrightarrow> distinct (map fst (foldl summaryStep m ps))"
  by (induction ps arbitrary: m) (simp_all add: summaryStep_distinct)

lemma foldl_summaryStep_map_of:
  "map_of (foldl summaryStep m ps) k =
     (if filter (\<lambda>p. tipo_tabela p = k) ps = [] then map_of m k
      else Some (foldl fl_add (fst (acc0 m k))
                   (map (\<lambda>p. parseFloat (dias p)) (filter (\<lambda>p. tipo_tabela p = k) ps)),
                 snd (acc0 m k) + length (filter (\<lambda>p. tipo_tabela p = k) ps)))"
proof (induction ps arbitrary: m)
  case Nil
  show ?case by simp
next
  case (Cons p ps)
  show ?case
  proof (cases "tipo_tabela p = k")
    case True
    then have a: "acc0 (summaryStep m p) k =
        (fl_add (fst (acc0 m k)) (parseFloat (dias p)), Suc (snd (acc0 m k)))"
      by (simp add: acc0_def [of "summaryStep m p"] summaryStep_map_of)
    from True have b: "map_of (summaryStep m p) k =
        Some (fl_add (fst (acc0 m k)) (parseFloat (dias p)), Suc (snd (acc0 m k)))"
      by (simp add: summaryStep_map_of)
    from True show ?thesis
      by (simp add: Cons.IH [of "summaryStep m p"] a b)
  next
    case False
    then have a: "acc0 (summaryStep m p) k = acc0 m k"
      by (simp add: acc0_def summaryStep_map_of)
    from False have b: "map_of (summaryStep m p) k = map_of m k"
      by (simp add: summaryStep_map_of)
    from False show ?thesis
      by (simp add: Cons.IH [of "summaryStep m p"] a b)
  qed
qed

lemma validGroup_filter:
  "filter (\<lambda>p. tipo_tabela p = k) (filter validDias (filter (\<lambda>p. unidade p = u) allProcesses))
     = validGroup allProcesses u k"
  by (auto simp: validGroup_def intro: filter_cong)

lemma summary_entries:
  assumes "s \<in> set (getTabelasSummaryByUnidade allProcesses u)"
  shows "validGroup allProcesses u (s_tipo_tabela s) \<noteq> []
    \<and> s_quantidadeProcessos s = length (validGroup allProcesses u (s_tipo_tabela s))
    \<and> mediaDias s =
        js_ceil (fl_div (foldl fl_add (Fin 0)
                           (map (\<lambda>p. parseFloat (dias p))
                              (validGroup allProcesses u (s_tipo_tabela s))))
                        (Fin (of_nat (length (validGroup allProcesses u (s_tipo_tabela s))))))"
proof -
  define vs where "vs = filter validDias (filter (\<lambda>p. unidade p = u) allProcesses)"
  define M where "M = foldl summaryStep [] vs"
  from assms have "s \<in> set (map summaryEntry M)"
    by (auto simp: getTabelasSummaryByUnidade_def Let_def vs_def M_def split: if_splits)
  then obtain k t c where kv: "(k, (t, c)) \<in> set M" and s: "s = summaryEntry (k, (t, c))"
    by auto
  have "distinct (map fst M)"
    unfolding M_def by (rule foldl_summaryStep_distinct) simp
  with kv have "map_of M k = Some (t, c)" by simp
  then have *: "map_of (foldl summaryStep [] vs) k = Some (t, c)"
    by (simp add: M_def)
  have g: "filter (\<lambda>p. tipo_tabela p = k) vs = validGroup allProcesses u k"
    unfolding vs_def by (rule validGroup_filter)
  from * have ne: "validGroup allProcesses u k \<noteq> []"
    by (auto simp: foldl_summaryStep_map_of g split: if_splits)
  with * have tc: "t = foldl fl_add (Fin 0)
                   (map (\<lambda>p. parseFloat (dias p)) (validGroup allProcesses u k))"
      "c = length (validGroup allProcesses u k)"
    by (simp_all add: foldl_summaryStep_map_of g acc0_def)
  from ne tc(2) have "0 < c" by simp
  with s tc ne show ?thesis
    by (simp add: summaryEntry_def Let_def)
qed

lemma summary_keys:
  "distinct (map s_tipo_tabela (getTabelasSummaryByUnidade allProcesses u))
   \<and> set (map s_tipo_tabela (getTabelasSummaryByUnidade allProcesses u))
       = {k. validGroup allProcesses u k \<noteq> []}"
proof -
  define vs where "vs = filter validDias (filter (\<lambda>p. unidade p = u) allProcesses)"
  define M where "M = foldl summaryStep [] vs"
  have key: "map s_tipo_tabela (map summaryEntry M) = map fst M"
    by (induction M) (auto simp: summaryEntry_def Let_def)
  have d: "distinct (map fst M)"
    unfolding M_def by (rule foldl_summaryStep_distinct) simp
  have g: "filter (\<lambda>p. tipo_tabela p = k) vs = validGroup allProcesses u k" for k
    unfolding vs_def by (rule validGroup_filter)
  have dom: "set (map fst M) = {k. validGroup allProcesses u k \<noteq> []}"
  proof -
    have "set (map fst M) = dom (map_of M)" by (simp add: dom_map_of_conv_image_fst)
    also have "\<dots> = {k. validGroup allProcesses u k \<noteq> []}"
      by (auto simp: M_def foldl_summaryStep_map_of g dom_def split: if_splits)
    finally show ?thesis .
  qed
  show ?thesis
  proof (cases "vs = []")
    case True
    then have e: "getTabelasSummaryByUnidade allProcesses u = []"
      by (auto simp: getTabelasSummaryByUnidade_def Let_def vs_def)
    from True have "validGroup allProcesses u k = []" for k
      using g [of k] by simp
    with e show ?thesis by simp
  next
    case False
    then have "filter (\<lambda>p. unidade p = u) allProcesses \<noteq> []"
      unfolding vs_def by (metis filter.simps(1))
    with False have e: "getTabelasSummaryByUnidade allProcesses u = map summaryEntry M"
      by (simp add: getTabelasSummaryByUnidade_def Let_def vs_def M_def)
    from d dom show ?thesis unfolding e key by blast
  qed
qed

lemma validDias_iff: "validDias p = (\<exists>q. parseFloat (dias p) = Fin q \<and> 0 < q)"
  by (cases "parseFloat (dias p)") (simp_all add: validDias_def js_gt_def)

section \<open>Printing and reading back two decimals\<close>

lemma showNat_digits: "c \<in> set (showNat n) \<Longrightarrow> isDigit c"
proof (induction n arbitrary: c rule: showNat.induct)
  case (1 n)
  show ?case
  proof (cases "n < 10")
    case True
    with "1.prems" have "c = char_of (48 + n)"
      by (simp add: showNat.simps [of n])
    with True show ?thesis
      by (simp add: isDigit_def)
  next
    case False
    with "1.prems" have "c \<in> set (showNat (n div 10)) \<or> c = char_of (48 + n mod 10)"
      by (auto simp: showNat.simps [of n])
    then show ?thesis
    proof
      assume "c \<in> set (showNat (n div 10))"
      with False "1.IH" show ?thesis by blast
    next
      assume c: "c = char_of (48 + n mod 10)"
      have "n mod 10 < 10" by simp
      then have "(48 + n mod 10) mod 256 = 48 + n mod 10" by simp
      with c show ?thesis by (simp add: isDigit_def)
    qed
  qed
qed

lemma showNat_nonempty: "showNat n \<noteq> []"
  by (subst showNat.simps) simp

lemma digitsVal_snoc: "digitsVal (ds @ [c]) = 10 * digitsVal ds + (of_char c - 48)"
  by (simp add: digitsVal_def)

lemma digitsVal_single: "digitsVal [c] = of_char c - 48"
  by (simp add: digitsVal_def)

lemma digitsVal_showNat: "digitsVal (showNat n) = n"
proof (induction n rule: showNat.induct)
  case (1 n)
  show ?case
  proof (cases "n < 10")
    case True
    then have "showNat n = [char_of (48 + n)]"
      by (simp add: showNat.simps [of n])
    with True show ?thesis by (simp add: digitsVal_single)
  next
    case False
    then have s: "showNat n = showNat (n div 10) @ [char_of (48 + n mod 10)]"
      by (simp add: showNat.simps [of n])
    have "n mod 10 < 10" by simp
    then have m: "(48 + n mod 10) mod 256 = 48 + n mod 10" by simp
    from False "1.IH" have "digitsVal (showNat (n div 10)) = n div 10" by simp
    with m show ?thesis
      unfolding s digitsVal_snoc by simp
  qed
qed

lemma digitsVal_zeros: "digitsVal (replicate z (CHR ''0'') @ ds) = digitsVal ds"
proof -
  have "foldl (\<lambda>n c. 10 * n + (of_char c - 48)) 0 (replicate z (CHR ''0'')) = (0::nat)"
    by (induction z) simp_all
  then show ?thesis by (simp add: digitsVal_def)
qed


lemma digit_not_special:
  assumes "isDigit c"
  shows "\<not> isWhiteSpace c" "c \<noteq> CHR ''+''" "c \<noteq> CHR ''-''" "c \<noteq> CHR ''.''" "c \<noteq> CHR ''I''"
  using assms by (auto simp: isDigit_def isWhiteSpace_def)

lemma dot_not_digit: "\<not> isDigit (CHR ''.'')"
  by (simp add: isDigit_def)

lemma strUnsignedDecimal_fixed:
  assumes ip: "ip \<noteq> []" "\<forall>c\<in>set ip. isDigit c" and fp: "\<forall>c\<in>set fp. isDigit c"
  shows "strUnsignedDecimal (ip @ CHR ''.'' # fp)
           = rnd (of_nat (digitsVal (ip @ fp)) * pow10 (- int (length fp)))"
proof -
  from ip obtain c ip' where c: "ip = c # ip'" "isDigit c"
    by (cases ip) auto
  then have inf: "take 8 (ip @ CHR ''.'' # fp) \<noteq> ''Infinity''"
    using digit_not_special(5) [of c] by auto
  from ip(2) have tw: "takeWhile isDigit (ip @ CHR ''.'' # fp) = ip"
    by (simp add: takeWhile_append2 dot_not_digit)
  from ip(2) have dw: "dropWhile isDigit (ip @ CHR ''.'' # fp) = CHR ''.'' # fp"
    by (simp add: dropWhile_append2 dot_not_digit)
  from fp have tf: "takeWhile isDigit fp = fp" by simp
  from fp have df: "dropWhile isDigit fp = []" by simp
  from ip(1) show ?thesis
    unfolding strUnsignedDecimal_def
    by (simp only: inf tw dw tf df Let_def if_False if_True list.case list.sel exponentPart_def)
       (simp add: ip(1))
qed

lemma parseFloatStr_fixed:
  assumes ip: "ip \<noteq> []" "\<forall>c\<in>set ip. isDigit c" and fp: "\<forall>c\<in>set fp. isDigit c"
  shows "parseFloatStr (ip @ CHR ''.'' # fp)
           = rnd (of_nat (digitsVal (ip @ fp)) * pow10 (- int (length fp)))"
proof -
  from ip obtain c ip' where c: "ip = c # ip'" "isDigit c"
    by (cases ip) auto
  from c digit_not_special [of c]
  have "parseFloatStr (ip @ CHR ''.'' # fp) = strUnsignedDecimal (ip @ CHR ''.'' # fp)"
    by (simp add: parseFloatStr_def)
  with strUnsignedDecimal_fixed [OF ip fp] show ?thesis by simp
qed

section \<open>Bounds on rounding\<close>

lemma pow2_powi: "pow2 k = 2 powi k"
  by (simp add: pow2_def power_int_def power_one_over inverse_eq_divide)

lemma pow2_pos: "0 < pow2 k"
  by (simp add: pow2_powi)

lemma ilog2_le:
  assumes "0 < q"
  shows "pow2 (ilog2 q) \<le> q"
proof -
  obtain a b where ab: "quotient_of q = (a, b)" by (cases "quotient_of q")
  then have b: "0 < b" by (rule quotient_of_denom_pos)
  from ab have q: "q = of_int a / of_int b" by (rule quotient_of_div)
  with assms b have a: "0 < a"
    by (simp add: zero_less_divide_iff)
  define d where "d = bitlen a - bitlen b"
  have il: "ilog2 q = (if pow2 d \<le> q then d else d - 1)"
    by (simp add: ilog2_def ab d_def Let_def)
  show ?thesis
  proof (cases "pow2 d \<le> q")
    case True
    with il show ?thesis by simp
  next
    case False
    from bitlen_bounds [OF a] have la: "2 ^ nat (bitlen a - 1) \<le> a" by simp
    from bitlen_bounds [OF b] have ub: "b < 2 ^ nat (bitlen b)" by simp
    from a have ba: "1 \<le> bitlen a" by (simp add: bitlen_alt_def)
    have bb: "0 \<le> bitlen b" by (rule bitlen_nonneg)
    have "pow2 (d - 1) = 2 powi (bitlen a - 1) / 2 powi (bitlen b)"
      unfolding pow2_powi d_def
      by (simp add: power_int_diff [symmetric] algebra_simps)
    also from ba bb have "\<dots> = of_int (2 ^ nat (bitlen a - 1)) / of_int (2 ^ nat (bitlen b))"
      by (simp add: power_int_nonneg_exp)
    also have "\<dots> \<le> of_int a / of_int b"
    proof (rule frac_le)
      from la show "(of_int (2 ^ nat (bitlen a - 1)) :: rat) \<le> of_int a"
        by (simp only: of_int_le_iff)
      from ub show "(of_int b :: rat) \<le> of_int (2 ^ nat (bitlen b))"
        by (simp only: of_int_le_iff)
      from b show "(0::rat) < of_int b" by simp
      from a show "(0::rat) \<le> of_int a" by simp
    qed
    finally have "pow2 (d - 1) \<le> q" by (simp add: q)
    with False il show ?thesis by simp
  qed
qed

lemma round_half_even_le:
  assumes "x \<le> of_int K"
  shows "round_half_even x \<le> K"
proof -
  have f: "\<lfloor>x\<rfloor> \<le> K" using assms by (simp add: floor_le_iff)
  show ?thesis
  proof (cases "x = of_int K")
    case True
    then show ?thesis by (simp add: round_half_even_def)
  next
    case False
    with assms have "x < of_int K" by simp
    then have "\<lfloor>x\<rfloor> < K" by (simp add: floor_less_iff)
    then show ?thesis by (simp add: round_half_even_def Let_def)
  qed
qed

lemma round_half_even_nonneg: "0 \<le> x \<Longrightarrow> 0 \<le> round_half_even x"
  by (simp add: round_half_even_def Let_def)

lemma rnd_bounded:
  assumes "0 \<le> q" "q \<le> of_int B" "B < 2 ^ 53"
  shows "\<exists>r. rnd q = Fin r \<and> 0 \<le> r \<and> r \<le> of_int B"
proof (cases "q = 0")
  case True
  with assms show ?thesis by (simp add: rnd_def)
next
  case False
  with assms have q: "0 < q" by simp
  define e where "e = max (ilog2 q) (- 1022)"
  define u where "u = pow2 (e - 52)"
  define m where "m = round_half_even (q / u)"
  have e52: "e \<le> 52"
  proof -
    have "ilog2 q < 53"
    proof (rule ccontr)
      assume "\<not> ilog2 q < 53"
      then have "(2::rat) powi 53 \<le> 2 powi (ilog2 q)"
        by (intro power_int_increasing) simp_all
      also have "\<dots> \<le> q" using ilog2_le [OF q] by (simp add: pow2_powi)
      also have "\<dots> \<le> of_int B" by fact
      also from assms(3) have "\<dots> < of_int (2 ^ 53)" by (simp only: of_int_less_iff)
      finally show False by simp
    qed
    then show ?thesis by (simp add: e_def)
  qed
  have u: "0 < u" by (simp add: u_def pow2_pos)
  have inv: "1 / u = of_int (2 ^ nat (52 - e))"
  proof -
    have "1 / u = 2 powi (52 - e)"
      by (simp add: u_def pow2_powi power_int_minus_divide [symmetric])
    with e52 show ?thesis by (simp add: power_int_nonneg_exp)
  qed
  have "q / u = q * (1 / u)" by simp
  also have "\<dots> = q * of_int (2 ^ nat (52 - e))"
    by (simp only: inv)
  also have "\<dots> \<le> of_int B * of_int (2 ^ nat (52 - e))"
    using assms(2) by (intro mult_right_mono) simp_all
  finally have "q / u \<le> of_int (B * 2 ^ nat (52 - e))" by simp
  then have mle: "m \<le> B * 2 ^ nat (52 - e)"
    unfolding m_def by (rule round_half_even_le)
  from q u have m0: "0 \<le> m"
    unfolding m_def by (intro round_half_even_nonneg) simp
  have "of_int m * u \<le> of_int (B * 2 ^ nat (52 - e)) * u"
    using mle u by (intro mult_right_mono) (simp_all only: of_int_le_iff less_imp_le)
  also have "\<dots> = of_int B * (of_int (2 ^ nat (52 - e)) * u)" by simp
  also have "of_int (2 ^ nat (52 - e)) * u = 1"
    using inv u by (simp add: field_simps)
  finally have r: "of_int m * u \<le> of_int B" by simp
  from m0 u have r0: "0 \<le> of_int m * u" by simp
  from q e52 have "rnd q = Fin (of_int m * u)"
    by (simp add: rnd_def Let_def e_def [symmetric] u_def [symmetric] m_def [symmetric])
  with r r0 show ?thesis by blast
qed

lemma parseFloat_toFixed2:
  assumes "0 \<le> q" "q < 10 ^ 21"
  shows "parseFloatFixed (toFixed2 (Fin q)) = rnd (of_int \<lfloor>q * 100 + 1 / 2\<rfloor> / 100)"
proof -
  define n where "n = nat \<lfloor>\<bar>q\<bar> * 100 + 1 / 2\<rfloor>"
  define m' where "m' = replicate (3 - length (showNat n)) (CHR ''0'') @ showNat n"
  define ip where "ip = take (length m' - 2) m'"
  define fp where "fp = drop (length m' - 2) m'"
  have k: "3 \<le> length m'" by (simp add: m'_def)
  have z: "isDigit (CHR ''0'')" by (simp add: isDigit_def)
  have dig: "\<forall>c\<in>set m'. isDigit c"
    using z by (auto simp: m'_def dest: showNat_digits)
  have val: "digitsVal m' = n"
    by (simp add: m'_def digitsVal_zeros digitsVal_showNat)
  from k have ipne: "ip \<noteq> []" by (auto simp: ip_def)
  from dig have ipd: "\<forall>c\<in>set ip. isDigit c"
    by (auto simp: ip_def dest: in_set_takeD)
  from dig have fpd: "\<forall>c\<in>set fp. isDigit c"
    by (auto simp: fp_def dest: in_set_dropD)
  from k have fpl: "length fp = 2" by (simp add: fp_def)
  have app: "ip @ fp = m'" by (simp add: ip_def fp_def)
  from assms have a: "\<not> 10 ^ 21 \<le> \<bar>q\<bar>" "\<not> q < 0" by simp_all
  then have "toFixed2 (Fin q)
      = Digits ([] @ take (length m' - 2) m' @ ''.'' @ drop (length m' - 2) m')"
    unfolding toFixed2_def Let_def n_def m'_def by (simp only: jsnum.case if_False)
  then have "toFixed2 (Fin q) = Digits (ip @ CHR ''.'' # fp)"
    by (simp only: ip_def fp_def append_Nil append_Cons)
  then have "parseFloatFixed (toFixed2 (Fin q)) = parseFloatStr (ip @ CHR ''.'' # fp)"
    by simp
  also have "\<dots> = rnd (of_nat (digitsVal (ip @ fp)) * pow10 (- int (length fp)))"
    using ipne ipd fpd by (rule parseFloatStr_fixed)
  also have "\<dots> = rnd (of_nat n / 100)"
    by (simp add: app val fpl pow10_def)
  also from assms(1) have "(of_nat n :: rat) = of_int \<lfloor>q * 100 + 1 / 2\<rfloor>"
    by (simp add: n_def)
  finally show ?thesis .
qed


















section \<open>Whole numbers are added and averaged exactly\<close>

lemma round_half_even_int: "round_half_even (of_int z) = z"
  by (simp add: round_half_even_def)

lemma round_half_even_lower: "x - 1 / 2 \<le> of_int (round_half_even x)"
proof -
  have "x - of_int \<lfloor>x\<rfloor> < 1" by linarith
  moreover have "0 \<le> x - of_int \<lfloor>x\<rfloor>" by linarith
  ultimately show ?thesis
    by (auto simp: round_half_even_def Let_def)
qed

lemma ilog2_bound:
  assumes "0 < q" "q \<le> of_int B" "B < 2 ^ 53"
  shows "ilog2 q < 53"
proof (rule ccontr)
  assume "\<not> ilog2 q < 53"
  then have "(2::rat) powi 53 \<le> 2 powi (ilog2 q)"
    by (intro power_int_increasing) simp_all
  also have "\<dots> \<le> q" using ilog2_le [OF assms(1)] by (simp add: pow2_powi)
  also have "\<dots> \<le> of_int B" by fact
  also from assms(3) have "\<dots> < of_int (2 ^ 53)" by (simp only: of_int_less_iff)
  finally show False by simp
qed

lemma ulp_inverse:
  assumes "e \<le> 52"
  shows "1 / pow2 (e - 52) = of_int (2 ^ nat (52 - e))"
proof -
  have "1 / pow2 (e - 52) = 2 powi (52 - e)"
    by (simp add: pow2_powi power_int_minus_divide [symmetric])
  with assms show ?thesis by (simp add: power_int_nonneg_exp)
qed

lemma rnd_int:
  assumes "0 \<le> k" "k < 2 ^ 53"
  shows "rnd (of_int k) = Fin (of_int k)"
proof (cases "k = 0")
  case True
  then show ?thesis by (simp add: rnd_def)
next
  case False
  with assms have k: "0 < k" by simp
  define q :: rat where "q = of_int k"
  from k have q: "0 < q" by (simp add: q_def)
  define e where "e = max (ilog2 q) (- 1022)"
  define u where "u = pow2 (e - 52)"
  have "ilog2 q < 53"
    using q assms(2) by (intro ilog2_bound [of q k]) (simp_all add: q_def)
  then have e52: "e \<le> 52" by (simp add: e_def)
  have u: "0 < u" by (simp add: u_def pow2_pos)
  have inv: "1 / u = of_int (2 ^ nat (52 - e))"
    unfolding u_def using e52 by (rule ulp_inverse)
  have "q / u = q * (1 / u)" by simp
  also have "\<dots> = of_int (k * 2 ^ nat (52 - e))"
    by (simp only: inv q_def of_int_mult)
  finally have qu: "q / u = of_int (k * 2 ^ nat (52 - e))" .
  have m: "round_half_even (q / u) = k * 2 ^ nat (52 - e)"
    unfolding qu by (rule round_half_even_int)
  have "of_int (k * 2 ^ nat (52 - e)) * u = q * ((1 / u) * u)"
    by (simp only: inv q_def of_int_mult mult.assoc)
  also from u have "\<dots> = q" by simp
  finally have r: "of_int (k * 2 ^ nat (52 - e)) * u = q" .
  from q e52 have "rnd q = Fin (of_int (round_half_even (q / u)) * u)"
    by (simp add: rnd_def Let_def e_def [symmetric] u_def [symmetric])
  with m r show ?thesis by (simp add: q_def)
qed

lemma foldl_fl_add_exact:
  assumes "\<forall>x\<in>set xs. 0 \<le> x" "0 \<le> a" "a + sum_list xs < 2 ^ 53"
  shows "foldl fl_add (Fin (of_int a)) (map (\<lambda>x. Fin (of_int x)) xs)
           = Fin (of_int (a + sum_list xs))"
  using assms
proof (induction xs arbitrary: a)
  case Nil
  then show ?case by simp
next
  case (Cons x xs)
  from Cons.prems have x: "0 \<le> x" and xs: "\<forall>y\<in>set xs. 0 \<le> y" by simp_all
  from xs have "0 \<le> sum_list xs" by (simp add: sum_list_nonneg)
  with Cons.prems x have b: "0 \<le> a + x" "a + x < 2 ^ 53" by simp_all
  have "fl_add (Fin (of_int a)) (Fin (of_int x)) = rnd (of_int (a + x))" by simp
  also from b have "\<dots> = Fin (of_int (a + x))" by (rule rnd_int)
  finally have s: "fl_add (Fin (of_int a)) (Fin (of_int x)) = Fin (of_int (a + x))" .
  from Cons.prems have "a + x + sum_list xs < 2 ^ 53" by simp
  with Cons.IH [OF xs b(1)] s show ?case by (simp add: add.assoc)
qed

lemma rnd_near:
  assumes "1 \<le> q" "q \<le> of_int B" "B < 2 ^ 53"
  shows "\<exists>r. rnd q = Fin r \<and> q - q / 2 ^ 53 \<le> r \<and> r \<le> of_int B"
proof -
  from assms(1) have q: "0 < q" by simp
  define e where "e = max (ilog2 q) (- 1022)"
  define u where "u = pow2 (e - 52)"
  define m where "m = round_half_even (q / u)"
  have "ilog2 q < 53" using q assms(2,3) by (rule ilog2_bound)
  then have e52: "e \<le> 52" by (simp add: e_def)
  have u: "0 < u" by (simp add: u_def pow2_pos)
  from q e52 have form: "rnd q = Fin (of_int m * u)"
    by (simp add: rnd_def Let_def e_def [symmetric] u_def [symmetric] m_def [symmetric])
  from rnd_bounded [of q B] assms q form have upper: "of_int m * u \<le> of_int B"
    by auto
  have pe: "pow2 e \<le> q"
  proof (cases "ilog2 q \<le> - 1022")
    case True
    then have "e = - 1022" by (simp add: e_def)
    then have "pow2 e \<le> 1" by (simp add: pow2_def)
    with assms(1) show ?thesis by simp
  next
    case False
    then have "e = ilog2 q" by (simp add: e_def)
    with ilog2_le [OF q] show ?thesis by simp
  qed
  have "u = pow2 e / 2 ^ 52"
    by (simp add: u_def pow2_powi power_int_diff)
  with pe have uq: "u \<le> q / 2 ^ 52" by (simp add: divide_right_mono)
  have "q / u - 1 / 2 \<le> of_int m"
    unfolding m_def by (rule round_half_even_lower)
  with u have "(q / u - 1 / 2) * u \<le> of_int m * u"
    by (intro mult_right_mono) simp_all
  moreover from u have "(q / u - 1 / 2) * u = q - u / 2"
    by (simp add: field_simps)
  ultimately have "q - u / 2 \<le> of_int m * u" by simp
  moreover from uq have "u / 2 \<le> q / 2 ^ 53" by simp
  ultimately have lower: "q - q / 2 ^ 53 \<le> of_int m * u" by simp
  from form upper lower show ?thesis by blast
qed

lemma ceil_rnd:
  assumes "0 < n" "int n \<le> T" "T < 2 ^ 53"
  shows "js_ceil (rnd (of_int T / of_nat n)) = Fin (of_int \<lceil>of_int T / of_nat n :: rat\<rceil>)"
proof -
  define q :: rat where "q = of_int T / of_nat n"
  define j where "j = \<lceil>q\<rceil>"
  from assms(1) have n: "(0::rat) < of_nat n" by simp
  from assms(1,2) have T: "0 < T" by simp
  have "(of_nat n :: rat) \<le> of_int T"
    using assms(2) by (metis of_int_le_iff of_int_of_nat_eq)
  with n have q1: "1 \<le> q" by (simp add: q_def le_divide_eq_1_pos)
  from assms(1) have "(1::rat) \<le> of_nat n" by simp
  with T n have "q \<le> of_int T"
    unfolding q_def by (simp add: divide_le_eq mult_le_cancel_left1)
  then have jT: "j \<le> T" by (simp add: j_def ceiling_le_iff)
  have qj: "q \<le> of_int j" by (simp add: j_def)
  from jT assms(3) have j53: "j < 2 ^ 53" by simp
  from rnd_near [OF q1 qj j53] obtain r
    where r: "rnd q = Fin r" "q - q / 2 ^ 53 \<le> r" "r \<le> of_int j" by blast
  have "of_int (j - 1) < q" using ceiling_correct [of q] by (simp add: j_def)
  with n have "of_int (j - 1) * of_nat n < (of_int T :: rat)"
    by (simp add: q_def pos_less_divide_eq)
  then have "(of_int ((j - 1) * int n) :: rat) < of_int T" by simp
  then have "(j - 1) * int n < T" by (simp only: of_int_less_iff)
  then have "(j - 1) * int n + 1 \<le> T" by simp
  then have "(of_int ((j - 1) * int n + 1) :: rat) \<le> of_int T" by (simp only: of_int_le_iff)
  then have "of_int (j - 1) * of_nat n + 1 \<le> (of_int T :: rat)" by simp
  with n have "(of_int (j - 1) * of_nat n + 1) / of_nat n \<le> (of_int T :: rat) / of_nat n"
    by (intro divide_right_mono) simp_all
  moreover from n have "(of_int (j - 1) * of_nat n + 1) / of_nat n
      = (of_int (j - 1) :: rat) + 1 / of_nat n"
    by (simp add: add_divide_distrib)
  ultimately have gap: "of_int (j - 1) + 1 / of_nat n \<le> q"
    by (simp only: q_def)
  from assms(3) have "(of_int T :: rat) < of_int (2 ^ 53)" by (simp only: of_int_less_iff)
  then have "(of_int T :: rat) < 2 ^ 53" by simp
  then have "(of_int T :: rat) / 2 ^ 53 < 1" by simp
  with n have "(of_int T :: rat) / 2 ^ 53 / of_nat n < 1 / of_nat n"
    by (intro divide_strict_right_mono) simp_all
  then have "q / 2 ^ 53 < 1 / of_nat n"
    by (simp add: q_def)
  with gap r(2) have "of_int (j - 1) < r" by simp
  with r(3) have "\<lceil>r\<rceil> = j"
    by (intro ceiling_unique) simp_all
  with r(1) show ?thesis by (simp add: q_def [symmetric] j_def)
qed

lemma summary_exact_mean:
  assumes s: "s \<in> set (getTabelasSummaryByUnidade allProcesses u)"
    and whole: "\<forall>p\<in>set (validGroup allProcesses u (s_tipo_tabela s)).
                  parseFloat (dias p) = Fin (of_int (wholeDias p))"
    and small: "sum_list (map wholeDias (validGroup allProcesses u (s_tipo_tabela s))) < 2 ^ 53"
  shows "mediaDias s =
           Fin (of_int \<lceil>of_int (sum_list (map wholeDias
                                  (validGroup allProcesses u (s_tipo_tabela s))))
                        / of_nat (length (validGroup allProcesses u (s_tipo_tabela s))) :: rat\<rceil>)"
proof -
  define g where "g = validGroup allProcesses u (s_tipo_tabela s)"
  from summary_entries [OF s] have ne: "g \<noteq> []"
    and m: "mediaDias s = js_ceil (fl_div (foldl fl_add (Fin 0) (map (\<lambda>p. parseFloat (dias p)) g))
                                          (Fin (of_nat (length g))))"
    by (simp_all add: g_def)
  have pos: "1 \<le> wholeDias p" if "p \<in> set g" for p
  proof -
    from that have "validDias p" by (simp add: g_def validGroup_def)
    then obtain q where q: "parseFloat (dias p) = Fin q" "0 < q"
      by (auto simp: validDias_iff)
    from that whole have "parseFloat (dias p) = Fin (of_int (wholeDias p))"
      by (simp add: g_def)
    with q have "0 < (of_int (wholeDias p) :: rat)" by simp
    then show ?thesis by simp
  qed
  have len: "int (length xs) \<le> sum_list (map wholeDias xs)" if "\<forall>p\<in>set xs. 1 \<le> wholeDias p" for xs
    using that by (induction xs) auto
  from pos have n: "int (length g) \<le> sum_list (map wholeDias g)"
    by (intro len) simp
  from whole have me: "map (\<lambda>p. parseFloat (dias p)) g
      = map (\<lambda>x. Fin (of_int x)) (map wholeDias g)"
    by (simp add: g_def)
  have fe: "foldl fl_add (Fin (of_int 0)) (map (\<lambda>x. Fin (of_int x)) (map wholeDias g))
      = Fin (of_int (0 + sum_list (map wholeDias g)))"
  proof (rule foldl_fl_add_exact)
    from pos show "\<forall>x\<in>set (map wholeDias g). 0 \<le> x" by fastforce
    show "(0::int) \<le> 0" by simp
    from small show "0 + sum_list (map wholeDias g) < 2 ^ 53" by (simp add: g_def)
  qed
  have total: "foldl fl_add (Fin 0) (map (\<lambda>p. parseFloat (dias p)) g)
      = Fin (of_int (sum_list (map wholeDias g)))"
    unfolding me using fe by simp
  from ne have l: "0 < length g" by simp
  then have "fl_div (Fin (of_int (sum_list (map wholeDias g)))) (Fin (of_nat (length g)))
      = rnd (of_int (sum_list (map wholeDias g)) / of_nat (length g))"
    by simp
  with m total have "mediaDias s
      = js_ceil (rnd (of_int (sum_list (map wholeDias g)) / of_nat (length g)))"
    by simp
  also from small have "\<dots> = Fin (of_int \<lceil>of_int (sum_list (map wholeDias g))
                                          / of_nat (length g) :: rat\<rceil>)"
    by (intro ceil_rnd l n) (simp add: g_def)
  finally show ?thesis by (simp add: g_def)
qed

lemma validGroup_one_two: "validGroup one_two ''U'' ''T'' = one_two"
  by (simp add: validGroup_def one_two_def mkProcess_def validDias_def js_gt_def)

lemma wholeDias_one_two:
  "\<forall>p\<in>set one_two. parseFloat (dias p) = Fin (of_int (wholeDias p))"
  "sum_list (map wholeDias one_two) = 3"
  by (simp_all add: one_two_def mkProcess_def wholeDias_def)

section \<open>The loaders\<close>

text \<open>
  The loader with \<open>updateLocalCache\<close>, when the read of the primary succeeds: the result
  is the parse of the primary's text whatever the backup write does, the backup holds that
  text when the directory can be made and the file written, and a text that is not JSON
  fails with \<open>CorruptData\<close>.
\<close>

lemma getProcessCache_primary:
  assumes "remote s = Inr content"
  shows "fst (getProcessCache parse s) = parseCache parse Remote content"
    and "(local_dir s \<or> mkdir_error s = None) \<and> write_error s = None \<Longrightarrow>
           local (snd (getProcessCache parse s)) = Inr content"
    and "parse content = None \<Longrightarrow> fst (getProcessCache parse s) = Inl CorruptData"
    and "parse content = Some (JsonArray items) \<Longrightarrow> fst (getProcessCache parse s) = Inr items"
  using assms
  by (auto simp: getProcessCache_def Let_def updateLocalCache_def mkdir_recursive_def
      writeFile_local_def parseCache_def split: option.splits)

section \<open>Claims\<close>

text \<open>
  C1. The primary is read and its text \<open>{bad\<close> is not JSON. The loader with
  \<open>updateLocalCache\<close> fails with \<open>CorruptData\<close>. The loader of \<open>route.ts\<close> goes to its
  \<open>catch\<close> and reads the backup: after its own write the backup holds the same text and
  the error is \<open>Unavailable\<close>; when the write fails, it returns the old content of the
  backup and no error at all.
\<close>

theorem route_corrupt_primary:
  "remote fs_corrupt_primary = Inr ''{bad''
   \<and> parse_demo ''{bad'' = None
   \<and> getProcessCache_route parse_demo fs_corrupt_primary
       = (Inl Unavailable, fs_corrupt_primary\<lparr>local := Inr ''{bad''\<rparr>)
   \<and> getProcessCache_route parse_demo fs_corrupt_primary_readonly
       = (Inr (JsonArray []), fs_corrupt_primary_readonly)
   \<and> fst (getProcessCache parse_demo fs_corrupt_primary) = Inl CorruptData
   \<and> fst (getProcessCache parse_demo fs_corrupt_primary_readonly) = Inl CorruptData"
  by (simp add: fs_corrupt_primary_def fs_corrupt_primary_readonly_def parse_demo_def
      getProcessCache_route_def writeFile_local_def readBackup_def getProcessCache_def
      updateLocalCache_def mkdir_recursive_def parseCache_def Let_def)

text \<open>
  C2. \<open>getOverallAverageDaysByUnidade\<close> adds the raw \<open>dias\<close> of every record of the unit
  and applies neither \<open>parseFloat\<close> nor the validity test. With one record whose \<open>dias\<close>
  is missing and one with \<open>dias\<close> 10 it returns \<open>NaN\<close>, where the summary of the same
  records, which applies the rule, reports the mean 10. With \<open>dias\<close> \<open>"5"\<close> and \<open>"7"\<close> it
  concatenates: the total is the text of \<open>0\<close> followed by \<open>57\<close>, read as a number and
  halved, where the summary reports the mean 6. With \<open>dias\<close> 0 and 10 it returns 5, the
  mean over both records, where the summary leaves the first out and reports 10.
\<close>

theorem overall_average_no_coercion:
  "getOverallAverageDaysByUnidade numberToString stringToNumber missing_dias ''U'' = NaN
   \<and> getTabelasSummaryByUnidade missing_dias ''U''
       = [\<lparr>s_tipo_tabela = ''T'', s_quantidadeProcessos = 1, mediaDias = Fin 10\<rparr>]
   \<and> getOverallAverageDaysByUnidade numberToString stringToNumber string_dias ''U''
       = parseFloatFixed (toFixed2
           (fl_div (stringToNumber (numberToString (Fin 0) @ ''57'')) (Fin 2)))
   \<and> getTabelasSummaryByUnidade string_dias ''U''
       = [\<lparr>s_tipo_tabela = ''T'', s_quantidadeProcessos = 2, mediaDias = Fin 6\<rparr>]
   \<and> getOverallAverageDaysByUnidade numberToString stringToNumber zero_dias ''U'' = Fin 5
   \<and> getTabelasSummaryByUnidade zero_dias ''U''
       = [\<lparr>s_tipo_tabela = ''T'', s_quantidadeProcessos = 1, mediaDias = Fin 10\<rparr>]"
proof -
  have "fl_div (fl_add (fl_add (Fin 0) (Fin 0)) (Fin 10)) (Fin 2) = Fin 5"
    by code_simp
  moreover have "parseFloatFixed (toFixed2 (Fin 5)) = rnd (of_int \<lfloor>(5::rat) * 100 + 1 / 2\<rfloor> / 100)"
    by (rule parseFloat_toFixed2) simp_all
  moreover have "rnd (of_int \<lfloor>(5::rat) * 100 + 1 / 2\<rfloor> / 100) = Fin 5"
    by code_simp
  ultimately have e: "getOverallAverageDaysByUnidade numberToString stringToNumber zero_dias ''U''
      = Fin 5"
    by (simp add: getOverallAverageDaysByUnidade_def zero_dias_def mkProcess_def Let_def
        del: fl_add.simps fl_div.simps)
  have f: "getTabelasSummaryByUnidade zero_dias ''U''
       = [\<lparr>s_tipo_tabela = ''T'', s_quantidadeProcessos = 1, mediaDias = Fin 10\<rparr>]"
    by code_simp
  have a: "getOverallAverageDaysByUnidade numberToString stringToNumber missing_dias ''U'' = NaN"
    by (simp add: getOverallAverageDaysByUnidade_def missing_dias_def mkProcess_def Let_def
        toFixed2_def)
  have b: "getTabelasSummaryByUnidade missing_dias ''U''
       = [\<lparr>s_tipo_tabela = ''T'', s_quantidadeProcessos = 1, mediaDias = Fin 10\<rparr>]"
    by code_simp
  have c: "getOverallAverageDaysByUnidade numberToString stringToNumber string_dias ''U''
       = parseFloatFixed (toFixed2
           (fl_div (stringToNumber (numberToString (Fin 0) @ ''57'')) (Fin 2)))"
    by (simp add: getOverallAverageDaysByUnidade_def string_dias_def mkProcess_def Let_def)
  have d: "getTabelasSummaryByUnidade string_dias ''U''
       = [\<lparr>s_tipo_tabela = ''T'', s_quantidadeProcessos = 2, mediaDias = Fin 6\<rparr>]"
    by code_simp
  from a b c d e f show ?thesis by blast
qed

text \<open>
  C3. The primary is read, its text \<open>[null]\<close> is a JSON list, and the backup cannot be
  written. The loader of \<open>route.ts\<close> makes no directory and treats the failed write as a
  failed read: it returns the old content of the backup, or fails with \<open>Unavailable\<close>
  when the directory of the backup is missing. The loader with \<open>updateLocalCache\<close>
  returns the primary's list in both states, and makes the directory and writes the text
  in the second.
\<close>

theorem route_backup_write_fails:
  "parse_demo ''[null]'' = Some (JsonArray [JsonNull])
   \<and> getProcessCache_route parse_demo fs_backup_readonly
       = (Inr (JsonArray []), fs_backup_readonly)
   \<and> getProcessCache_route parse_demo fs_no_backup_dir
       = (Inl Unavailable, fs_no_backup_dir)
   \<and> getProcessCache parse_demo fs_backup_readonly
       = (Inr [JsonNull], fs_backup_readonly)
   \<and> getProcessCache parse_demo fs_no_backup_dir
       = (Inr [JsonNull], fs_no_backup_dir\<lparr>local := Inr ''[null]'', local_dir := True\<rparr>)"
  by (simp add: fs_backup_readonly_def fs_no_backup_dir_def parse_demo_def
      getProcessCache_route_def writeFile_local_def readBackup_def getProcessCache_def
      updateLocalCache_def mkdir_recursive_def parseCache_def Let_def)

text \<open>
  C4, as stated, fails when the text of the backup is not JSON: the read of the primary
  fails, the read of the backup succeeds, and both loaders throw.
\<close>

theorem backup_fallback_counterexample:
  "remote (fs_backup_only ''{bad'') = Inl ''ENOENT''
   \<and> local (fs_backup_only ''{bad'') = Inr ''{bad''
   \<and> getProcessCache parse_demo (fs_backup_only ''{bad'')
       = (Inl CorruptData, fs_backup_only ''{bad'')
   \<and> getProcessCache_route parse_demo (fs_backup_only ''{bad'')
       = (Inl Unavailable, fs_backup_only ''{bad'')"
  by (simp add: fs_backup_only_def parse_demo_def getProcessCache_route_def readBackup_def
      getProcessCache_def parseCache_def)

text \<open>
  C4, as amended. When the read of the primary fails and the read of the backup succeeds,
  the loader returns the parsed content of the backup, throws nothing and leaves the files
  as they are, provided that the text of the backup parses as JSON (for the loader with
  \<open>updateLocalCache\<close>: as a list). A text that does not parse makes it fail with
  \<open>CorruptData\<close> (\<open>route.ts\<close>: \<open>Unavailable\<close>), and a JSON value that is not a list with
  \<open>InvalidShape\<close>.
\<close>

theorem backup_fallback:
  "remote s = Inl e \<Longrightarrow> local s = Inr content \<Longrightarrow>
   (parse content = Some (JsonArray items) \<longrightarrow> getProcessCache parse s = (Inr items, s))
   \<and> (parse content = Some v \<longrightarrow> getProcessCache_route parse s = (Inr v, s))
   \<and> (parse content = None \<longrightarrow>
        getProcessCache parse s = (Inl CorruptData, s)
        \<and> getProcessCache_route parse s = (Inl Unavailable, s))
   \<and> (parse content = Some v \<and> (\<forall>xs. v \<noteq> JsonArray xs) \<longrightarrow>
        getProcessCache parse s = (Inl (InvalidShape Local), s))"
  by (cases v) (auto simp: getProcessCache_def getProcessCache_route_def readBackup_def
      parseCache_def)

theorem backup_fallback_witness:
  "remote (fs_backup_only ''[null]'') = Inl ''ENOENT''
   \<and> local (fs_backup_only ''[null]'') = Inr ''[null]''
   \<and> parse_demo ''[null]'' = Some (JsonArray [JsonNull])
   \<and> getProcessCache parse_demo (fs_backup_only ''[null]'')
       = (Inr [JsonNull], fs_backup_only ''[null]'')
   \<and> getProcessCache_route parse_demo (fs_backup_only ''[null]'')
       = (Inr (JsonArray [JsonNull]), fs_backup_only ''[null]'')
   \<and> parse_demo ''{bad'' = None
   \<and> getProcessCache parse_demo (fs_backup_only ''{bad'')
       = (Inl CorruptData, fs_backup_only ''{bad'')
   \<and> parse_demo ''{}'' = Some (JsonObject [])
   \<and> getProcessCache parse_demo (fs_backup_only ''{}'')
       = (Inl (InvalidShape Local), fs_backup_only ''{}'')"
proof -
  have r: "remote (fs_backup_only c) = Inl ''ENOENT''" "local (fs_backup_only c) = Inr c" for c
    by (simp_all add: fs_backup_only_def)
  have p: "parse_demo ''[null]'' = Some (JsonArray [JsonNull])" "parse_demo ''{bad'' = None"
      "parse_demo ''{}'' = Some (JsonObject [])"
    by (simp_all add: parse_demo_def)
  have o: "\<forall>xs. JsonObject [] \<noteq> JsonArray xs" by simp
  from r p o
    backup_fallback [OF r(1) r(2), of parse_demo "''[null]''" "[JsonNull]" "JsonArray [JsonNull]"]
    backup_fallback [OF r(1) r(2), of parse_demo "''{bad''" "[]" JsonNull]
    backup_fallback [OF r(1) r(2), of parse_demo "''{}''" "[]" "JsonObject []"]
  show ?thesis by simp
qed

text \<open>
  C5, as amended. \<open>getProcessByNumber\<close>, and the search of the \<open>GET\<close> handler, called
  with the \<open>processo\<close> of a record of the list return the first record of the list with
  that \<open>processo\<close>, compared as a whole string; it is the record itself when no two
  records of the list share a \<open>processo\<close>.
\<close>

theorem find_own_number:
  "r \<in> set recs \<Longrightarrow>
   (\<exists>i<length recs.
       getProcessByNumber recs (processo r) = Some (recs ! i)
       \<and> GET_search recs (processo r) = Ok200 (recs ! i)
       \<and> processo (recs ! i) = processo r
       \<and> (\<forall>j<i. processo (recs ! j) \<noteq> processo r))
   \<and> (distinct (map processo recs) \<longrightarrow> getProcessByNumber recs (processo r) = Some r)"
proof -
  assume r: "r \<in> set recs"
  from find_first [OF r, of processo]
  obtain i where i: "i < length recs"
      "getProcessByNumber recs (processo r) = Some (recs ! i)"
      "processo (recs ! i) = processo r"
      "\<forall>j<i. processo (recs ! j) \<noteq> processo r"
    unfolding getProcessByNumber_def by blast
  from i(2) have g: "GET_search recs (processo r) = Ok200 (recs ! i)"
    by (simp add: GET_search_def getProcessByNumber_def)
  have "recs ! i = r" if d: "distinct (map processo recs)"
  proof -
    from r obtain k where k: "k < length recs" "recs ! k = r"
      by (auto simp: in_set_conv_nth)
    from d i(1,3) k have "i = k"
      by (auto simp: distinct_conv_nth)
    with k show ?thesis by simp
  qed
  with i g show ?thesis by auto
qed

theorem find_own_number_witness:
  "dup_second \<in> set [dup_first, dup_second]
   \<and> getProcessByNumber [dup_first, dup_second] (processo dup_second) = Some dup_first
   \<and> dup_other \<in> set [dup_first, dup_other]
   \<and> distinct (map processo [dup_first, dup_other])
   \<and> getProcessByNumber [dup_first, dup_other] (processo dup_other) = Some dup_other
   \<and> GET_search [dup_first, dup_other] (processo dup_other) = Ok200 dup_other"
proof -
  have m: "dup_second \<in> set [dup_first, dup_second]" "dup_other \<in> set [dup_first, dup_other]"
    by simp_all
  have d: "distinct (map processo [dup_first, dup_other])"
    by (simp add: dup_first_def dup_other_def mkProcess_def)
  from find_own_number [OF m(1)]
  have f: "getProcessByNumber [dup_first, dup_second] (processo dup_second) = Some dup_first"
    by (simp add: getProcessByNumber_def dup_first_def dup_second_def mkProcess_def)
  from find_own_number [OF m(2)] d
  have g: "getProcessByNumber [dup_first, dup_other] (processo dup_other) = Some dup_other"
    by blast
  then have h: "GET_search [dup_first, dup_other] (processo dup_other) = Ok200 dup_other"
    by (simp add: GET_search_def getProcessByNumber_def)
  from m d f g h show ?thesis by blast
qed

theorem find_own_number_counterexample:
  "dup_second \<in> set [dup_first, dup_second]
   \<and> getProcessByNumber [dup_first, dup_second] (processo dup_second) = Some dup_first
   \<and> GET_search [dup_first, dup_second] (processo dup_second) = Ok200 dup_first
   \<and> dup_first \<noteq> dup_second"
  by (simp add: getProcessByNumber_def GET_search_def dup_first_def dup_second_def mkProcess_def)

text \<open>
  C6, as stated, fails where binary64 rounding shows. Days \<open>2 ^ 53\<close> and 1 are both valid;
  their sum rounds to \<open>2 ^ 53\<close> and the summary reports \<open>2 ^ 52\<close>, while their mean
  rounded up is \<open>2 ^ 52 + 1\<close>. Days \<open>1 + 2 ^ -52\<close> and 1 are reported as 1, while their
  mean is above 1 and rounds up to 2.
\<close>

theorem summary_valid_ceiling_counterexample:
  "getTabelasSummaryByUnidade big_days ''U''
     = [\<lparr>s_tipo_tabela = ''T'', s_quantidadeProcessos = 2, mediaDias = Fin 4503599627370496\<rparr>]
   \<and> validGroup big_days ''U'' ''T'' = big_days
   \<and> \<lceil>(9007199254740992 + 1) / 2 :: rat\<rceil> = 4503599627370497
   \<and> getTabelasSummaryByUnidade near_one ''U''
     = [\<lparr>s_tipo_tabela = ''T'', s_quantidadeProcessos = 2, mediaDias = Fin 1\<rparr>]
   \<and> validGroup near_one ''U'' ''T'' = near_one
   \<and> \<lceil>(4503599627370497 / 4503599627370496 + 1) / 2 :: rat\<rceil> = 2"
proof -
  have a: "getTabelasSummaryByUnidade big_days ''U''
     = [\<lparr>s_tipo_tabela = ''T'', s_quantidadeProcessos = 2, mediaDias = Fin 4503599627370496\<rparr>]"
    by code_simp
  have b: "validGroup big_days ''U'' ''T'' = big_days"
    by (simp add: validGroup_def big_days_def mkProcess_def validDias_def js_gt_def)
  have c: "\<lceil>(9007199254740992 + 1) / 2 :: rat\<rceil> = 4503599627370497"
    by code_simp
  have d: "getTabelasSummaryByUnidade near_one ''U''
     = [\<lparr>s_tipo_tabela = ''T'', s_quantidadeProcessos = 2, mediaDias = Fin 1\<rparr>]"
    by code_simp
  have e: "validGroup near_one ''U'' ''T'' = near_one"
    by (simp add: validGroup_def near_one_def mkProcess_def validDias_def js_gt_def)
  have f: "\<lceil>(4503599627370497 / 4503599627370496 + 1) / 2 :: rat\<rceil> = 2"
    by code_simp
  from a b c d e f show ?thesis by blast
qed

text \<open>
  C6, as amended. A summary entry of \<open>getTabelasSummaryByUnidade\<close> counts exactly the
  records of the unit and of its category whose coerced \<open>dias\<close> is a finite number above
  \<open>0\<close>: no record with a non-numeric, non-finite or non-positive \<open>dias\<close> is in any group.
  The reported value is \<open>Math.ceil\<close> of the binary64 mean: the coerced \<open>dias\<close> of these
  records added in the order of the list and divided by their number, each operation
  rounded to binary64. When the days of the group are whole numbers with a total below
  \<open>2 ^ 53\<close>, it is the exact mean rounded up to the next integer. Valid days 1 and 2 have
  the mean 1.5 and are reported as 2.
\<close>

theorem summary_valid_ceiling:
  "(s \<in> set (getTabelasSummaryByUnidade allProcesses u) \<longrightarrow>
      validGroup allProcesses u (s_tipo_tabela s) \<noteq> []
      \<and> s_quantidadeProcessos s = length (validGroup allProcesses u (s_tipo_tabela s))
      \<and> mediaDias s =
          js_ceil (fl_div (foldl fl_add (Fin 0)
                             (map (\<lambda>p. parseFloat (dias p))
                                (validGroup allProcesses u (s_tipo_tabela s))))
                          (Fin (of_nat (length (validGroup allProcesses u (s_tipo_tabela s)))))))
   \<and> (s \<in> set (getTabelasSummaryByUnidade allProcesses u)
        \<and> (\<forall>p\<in>set (validGroup allProcesses u (s_tipo_tabela s)).
               parseFloat (dias p) = Fin (of_int (wholeDias p)))
        \<and> sum_list (map wholeDias (validGroup allProcesses u (s_tipo_tabela s))) < 2 ^ 53
        \<longrightarrow>
        mediaDias s =
          Fin (of_int \<lceil>of_int (sum_list (map wholeDias
                                 (validGroup allProcesses u (s_tipo_tabela s))))
                       / of_nat (length (validGroup allProcesses u (s_tipo_tabela s))) :: rat\<rceil>))
   \<and> (\<forall>p. validDias p = (\<exists>q. parseFloat (dias p) = Fin q \<and> 0 < q))
   \<and> (\<forall>q. js_ceil (Fin q) = Fin (of_int \<lceil>q\<rceil>))
   \<and> fl_div (foldl fl_add (Fin 0) [Fin 1, Fin 2]) (Fin 2) = Fin (3 / 2)
   \<and> getTabelasSummaryByUnidade one_two ''U'' =
        [\<lparr>s_tipo_tabela = ''T'', s_quantidadeProcessos = 2, mediaDias = Fin 2\<rparr>]"
proof -
  have mean: "fl_div (foldl fl_add (Fin 0) [Fin 1, Fin 2]) (Fin 2) = Fin (3 / 2)"
    by code_simp
  have example: "getTabelasSummaryByUnidade one_two ''U'' =
        [\<lparr>s_tipo_tabela = ''T'', s_quantidadeProcessos = 2, mediaDias = Fin 2\<rparr>]"
    by code_simp
  from summary_entries [of s allProcesses u] summary_exact_mean [of s allProcesses u]
    validDias_iff mean example
  show ?thesis by simp
qed

theorem summary_valid_ceiling_witness:
  "\<lparr>s_tipo_tabela = ''T'', s_quantidadeProcessos = 2, mediaDias = Fin 2\<rparr>
     \<in> set (getTabelasSummaryByUnidade one_two ''U'')
   \<and> validGroup one_two ''U'' ''T'' \<noteq> []
   \<and> length (validGroup one_two ''U'' ''T'') = 2
   \<and> sum_list (map wholeDias (validGroup one_two ''U'' ''T'')) = 3
   \<and> Fin 2 = Fin (of_int \<lceil>of_int 3 / of_nat 2 :: rat\<rceil>)"
proof -
  let ?s = "\<lparr>s_tipo_tabela = ''T'', s_quantidadeProcessos = 2, mediaDias = Fin 2\<rparr>"
  from summary_valid_ceiling [of ?s one_two "''U''"]
  have e: "getTabelasSummaryByUnidade one_two ''U'' = [?s]" by blast
  then have m: "?s \<in> set (getTabelasSummaryByUnidade one_two ''U'')" by simp
  from summary_valid_ceiling [of ?s one_two "''U''"] m
  have g: "validGroup one_two ''U'' (s_tipo_tabela ?s) \<noteq> []
      \<and> s_quantidadeProcessos ?s = length (validGroup one_two ''U'' (s_tipo_tabela ?s))"
    by blast
  have w: "\<forall>p\<in>set (validGroup one_two ''U'' (s_tipo_tabela ?s)).
             parseFloat (dias p) = Fin (of_int (wholeDias p))"
    using wholeDias_one_two(1) by (simp add: validGroup_one_two)
  have t: "sum_list (map wholeDias (validGroup one_two ''U'' (s_tipo_tabela ?s))) = 3"
    using wholeDias_one_two(2) by (simp add: validGroup_one_two)
  then have "sum_list (map wholeDias (validGroup one_two ''U'' (s_tipo_tabela ?s))) < 2 ^ 53"
    by simp
  with summary_valid_ceiling [of ?s one_two "''U''"] m w
  have "mediaDias ?s =
          Fin (of_int \<lceil>of_int (sum_list (map wholeDias
                                 (validGroup one_two ''U'' (s_tipo_tabela ?s))))
                       / of_nat (length (validGroup one_two ''U'' (s_tipo_tabela ?s))) :: rat\<rceil>)"
    by blast
  with m g t show ?thesis by simp
qed

text \<open>
  C7. Whatever the records, the category and the unit, \<open>getDetailsByUnidadeAndTabela\<close>
  called with a threshold of \<open>0\<close> days reports, whenever it returns a result and not
  \<open>null\<close>, an in-threshold count of \<open>0\<close>: a record counts only when its coerced \<open>dias\<close> is
  finite, above \<open>0\<close> and at most the threshold.
\<close>

theorem details_threshold_zero:
  "getDetailsByUnidadeAndTabela allProcesses tipoTabela u (Fin 0) = Some d \<Longrightarrow> d_dias d = 0"
  by (auto simp: getDetails_eq inInterval_zero split: if_splits)

theorem details_threshold_zero_witness:
  "getDetailsByUnidadeAndTabela four_records ''T'' ''U'' (Fin 0)
     = Some \<lparr>d_tipo_tabela = ''T'', d_quantidadeProcessos = 4, d_dias = 0,
             percentualIntervaloDias = Fin 0\<rparr>
   \<and> d_dias \<lparr>d_tipo_tabela = ''T'', d_quantidadeProcessos = 4, d_dias = 0,
             percentualIntervaloDias = Fin 0\<rparr> = 0"
proof -
  have h: "getDetailsByUnidadeAndTabela four_records ''T'' ''U'' (Fin 0)
     = Some \<lparr>d_tipo_tabela = ''T'', d_quantidadeProcessos = 4, d_dias = 0,
             percentualIntervaloDias = Fin 0\<rparr>"
    by code_simp
  from h details_threshold_zero [OF h] show ?thesis by simp
qed




text \<open>
  C9. For a category and unit pair that selects at least one record,
  \<open>getInvalidProcessesDetails\<close> returns the number of selected records whose \<open>dias\<close> is
  \<open>null\<close>, \<open>undefined\<close>, not finite once coerced, or at most \<open>0\<close>, together with the
  number of selected records; for a pair that selects no record it returns \<open>null\<close>. On
  the records with \<open>dias\<close> \<open>null\<close>, \<open>"abc"\<close>, \<open>-1\<close> and \<open>5\<close> it returns 3 invalid out of 4.
\<close>

theorem invalid_count:
  "(matching allProcesses tipoTabela u = [] \<longrightarrow>
      getInvalidProcessesDetails allProcesses tipoTabela u = None)
   \<and> (matching allProcesses tipoTabela u \<noteq> [] \<longrightarrow>
        getInvalidProcessesDetails allProcesses tipoTabela u =
          Some \<lparr>i_tipo_tabela = tipoTabela,
                quantidadeProcessosInvalidos =
                  length (filter (\<lambda>p. dias p = JNull \<or> dias p = JUndefined
                                       \<or> \<not> isFinite (parseFloat (dias p))
                                       \<or> js_le (parseFloat (dias p)) (Fin 0))
                            (matching allProcesses tipoTabela u)),
                totalGeralProcessos = length (matching allProcesses tipoTabela u)\<rparr>)
   \<and> getInvalidProcessesDetails four_records ''T'' ''U'' =
        Some \<lparr>i_tipo_tabela = ''T'', quantidadeProcessosInvalidos = 3,
              totalGeralProcessos = 4\<rparr>"
proof -
  have same: "invalidDias = (\<lambda>p. dias p = JNull \<or> dias p = JUndefined
                                 \<or> \<not> isFinite (parseFloat (dias p))
                                 \<or> js_le (parseFloat (dias p)) (Fin 0))"
    by (rule ext) (simp add: invalidDias_def Let_def disj_assoc)
  have general: "getInvalidProcessesDetails allProcesses tipoTabela u =
     (if matching allProcesses tipoTabela u = [] then None
      else Some \<lparr>i_tipo_tabela = tipoTabela,
                 quantidadeProcessosInvalidos =
                   length (filter (\<lambda>p. dias p = JNull \<or> dias p = JUndefined
                                       \<or> \<not> isFinite (parseFloat (dias p))
                                       \<or> js_le (parseFloat (dias p)) (Fin 0))
                             (matching allProcesses tipoTabela u)),
                 totalGeralProcessos = length (matching allProcesses tipoTabela u)\<rparr>)"
    unfolding getInvalid_eq same ..
  have example: "getInvalidProcessesDetails four_records ''T'' ''U'' =
        Some \<lparr>i_tipo_tabela = ''T'', quantidadeProcessosInvalidos = 3,
              totalGeralProcessos = 4\<rparr>"
    by code_simp
  from general example show ?thesis by simp
qed

theorem invalid_count_witness:
  "matching [] ''T'' ''U'' = [] \<and> getInvalidProcessesDetails [] ''T'' ''U'' = None
   \<and> matching four_records ''T'' ''U'' \<noteq> []
   \<and> getInvalidProcessesDetails four_records ''T'' ''U'' =
        Some \<lparr>i_tipo_tabela = ''T'', quantidadeProcessosInvalidos = 3,
              totalGeralProcessos = 4\<rparr>"
proof -
  have e: "matching [] ''T'' ''U'' = []"
    by (simp add: matching_def)
  have n: "matching four_records ''T'' ''U'' \<noteq> []"
    by (simp add: matching_def four_records_def mkProcess_def)
  from e invalid_count [of "[]" "''T''" "''U''"]
  have a: "getInvalidProcessesDetails [] ''T'' ''U'' = None" by blast
  from invalid_count [of four_records "''T''" "''U''"]
  have b: "getInvalidProcessesDetails four_records ''T'' ''U'' =
        Some \<lparr>i_tipo_tabela = ''T'', quantidadeProcessosInvalidos = 3,
              totalGeralProcessos = 4\<rparr>" by blast
  from e n a b show ?thesis by blast
qed



end
